theory Spec2Isabelle
  imports Main "HOL-Library.Word"
begin

section \<open>Data model of the inventory reader (block/s3/inventory_reader.go)\<close>

text \<open>
  Go's \<^verbatim>\<open>int64\<close> is a 64-bit word: addition wraps and equality is equality of bit
  patterns. Lengths of slices (\<^verbatim>\<open>len\<close>, \<^verbatim>\<open>reflect ... Len()\<close>) are natural numbers.
\<close>

type_synonym int64 = "64 word"

text \<open>
  The error values a call can return. \<open>ErrNoMoreRowsToSkip\<close> is
  \<^verbatim>\<open>errors.New("no more rows to skip")\<close>, \<open>Wrapf msg e\<close> is
  \<^verbatim>\<open>fmt.Errorf(msg + ": %w", e)\<close>, and \<open>External s\<close> is an error produced by a
  collaborator (temporary-file creation, the S3 downloader, the ORC or Parquet library).
\<close>

datatype error =
    ErrUnsupportedInventoryFormat
  | ErrNoMoreRowsToSkip
  | External string
  | Wrapf string error

text \<open>A run-time panic of the Go program is a value of its own, never an error return.\<close>

datatype panic = NilPointerDereference | IndexOutOfRange | TypeAssertionFailed

text \<open>
  Modelled from the spec: the declarations of \<^verbatim>\<open>InventoryObject\<close> and \<^verbatim>\<open>Manifest\<close> (and of
  the variable \<^verbatim>\<open>ErrUnsupportedInventoryFormat\<close>, a constructor of \<open>error\<close> above) live in
  another file of the package. The fields are the ones the functions below read and write
  (\<^verbatim>\<open>Bucket\<close>, \<^verbatim>\<open>Key\<close>, \<^verbatim>\<open>Size\<close>, \<^verbatim>\<open>LastModified\<close>; \<^verbatim>\<open>Format\<close>, \<^verbatim>\<open>inventoryBucket\<close>,
  \<^verbatim>\<open>Files\<close> with a \<^verbatim>\<open>Key\<close> each). \<^verbatim>\<open>swag.Int64\<close> returns a pointer, hence the optional
  fields. The key of a manifest file is called \<open>FileKey\<close> here, since a record field name
  is global.
\<close>

record InventoryObject =
  Bucket :: string
  Key :: string
  Size :: "int64 option"
  LastModified :: "int64 option"

record ManifestFile =
  FileKey :: string

record Manifest =
  Format :: string
  inventoryBucket :: string
  Files :: "ManifestFile list"

text \<open>The cache entry \<^verbatim>\<open>orcFile\<close>. A fresh \<^verbatim>\<open>&orcFile{key: key}\<close> has Go's zero values elsewhere.\<close>

record orcFile =
  key :: string
  idx :: nat
  localFilename :: string
  ready :: bool

record InventoryReader =
  manifest :: Manifest
  orcFilesByKey :: "string \<rightharpoonup> orcFile"

text \<open>
  \<^verbatim>\<open>NewInventoryReader(svc, logger)\<close> sets the S3 client, the logger and an empty map; the
  manifest is left at Go's zero value and is assigned by another file of the package. The
  client and the logger are not state of the model: what the client answers is in \<open>Env\<close>
  below, and logging has no effect on the results.
\<close>

definition NewInventoryReader :: InventoryReader where
  "NewInventoryReader =
     \<lparr>manifest = \<lparr>Format = [], inventoryBucket = [], Files = []\<rparr>, orcFilesByKey = Map.empty\<rparr>"

section \<open>The ORC library's reader and cursor\<close>

text \<open>
  The ORC decoding library is an external collaborator. A value of a row is an
  \<^verbatim>\<open>interface{}\<close>: a string, an \<^verbatim>\<open>int64\<close>, a \<^verbatim>\<open>time.Time\<close> (kept as its \<^verbatim>\<open>Unix()\<close> seconds) or
  nil. A file is its stripes, each a list of rows, and the row count its footer declares.

  The cursor follows the library's contract, \<^verbatim>\<open>for c.Stripes() { for c.Next() { c.Row() } }\<close>:
  \<open>Stripes\<close> prepares the next stripe and answers whether there was one; \<open>Next\<close> moves to
  the next row of the prepared stripe and answers whether there was one; \<open>Row\<close> is the row
  \<open>Next\<close> moved to. A cursor made by \<open>Select\<close> has no stripe prepared.

  When \<open>Stripes\<close> finds no stripe left, the cursor is at the end of the data for good: the
  rows of the current stripe that \<open>Next\<close> has not produced are given up with it. The end
  of the data is the state with no row in the prepared stripe and no stripe left; \<open>Next\<close>
  and \<open>Stripes\<close> both answer no in it and leave it as it is.
\<close>

datatype orc_value = OrcString string | OrcInt64 int64 | OrcTime int64 | OrcNil

type_synonym row = "orc_value list"

record OrcFileData =
  stripes :: "row list list"
  numberOfRows :: nat

record Cursor =
  stripeRows :: "row list"
  nextVal :: row
  stripesLeft :: "row list list"

definition Select :: "OrcFileData \<Rightarrow> Cursor" where
  "Select f = \<lparr>stripeRows = [], nextVal = [], stripesLeft = stripes f\<rparr>"

definition Next :: "Cursor \<Rightarrow> bool \<times> Cursor" where
  "Next c = (case stripeRows c of
               [] \<Rightarrow> (False, c)
             | x # xs \<Rightarrow> (True, c\<lparr>stripeRows := xs, nextVal := x\<rparr>))"

definition Stripes :: "Cursor \<Rightarrow> bool \<times> Cursor" where
  "Stripes c = (case stripesLeft c of
                  [] \<Rightarrow> (False, c\<lparr>stripeRows := []\<rparr>)
                | s # ss \<Rightarrow> (True, c\<lparr>stripeRows := s, stripesLeft := ss\<rparr>))"

definition Row :: "Cursor \<Rightarrow> row" where
  "Row c = nextVal c"

definition NumRows :: "OrcFileData \<Rightarrow> nat" where
  "NumRows f = numberOfRows f"

text \<open>The rows a cursor has not produced yet, in file order, and their number.\<close>

definition rowsLeft :: "Cursor \<Rightarrow> row list" where
  "rowsLeft c = stripeRows c @ concat (stripesLeft c)"

definition allRows :: "OrcFileData \<Rightarrow> row list" where
  "allRows f = concat (stripes f)"

section \<open>The materialization-format adapter\<close>

record OrcManifestFileReader =
  reader :: OrcFileData
  c :: Cursor
  rkey :: string

text \<open>
  \<^verbatim>\<open>inventoryObjectFromOrc\<close>: each \<^verbatim>\<open>rowData[i].(T)\<close> panics when the index is out of range
  or the value is not a \<^verbatim>\<open>T\<close>; the fields are evaluated in the order written.
\<close>

definition index :: "row \<Rightarrow> nat \<Rightarrow> panic + orc_value" where
  "index rowData i = (if i < length rowData then Inr (rowData ! i) else Inl IndexOutOfRange)"

definition asString :: "orc_value \<Rightarrow> panic + string" where
  "asString v = (case v of OrcString s \<Rightarrow> Inr s | _ \<Rightarrow> Inl TypeAssertionFailed)"

definition asInt64 :: "orc_value \<Rightarrow> panic + int64" where
  "asInt64 v = (case v of OrcInt64 n \<Rightarrow> Inr n | _ \<Rightarrow> Inl TypeAssertionFailed)"

definition asTimeUnix :: "orc_value \<Rightarrow> panic + int64" where
  "asTimeUnix v = (case v of OrcTime t \<Rightarrow> Inr t | _ \<Rightarrow> Inl TypeAssertionFailed)"

definition bindP :: "panic + 'a \<Rightarrow> ('a \<Rightarrow> panic + 'b) \<Rightarrow> panic + 'b" where
  "bindP m f = (case m of Inl p \<Rightarrow> Inl p | Inr x \<Rightarrow> f x)"

definition inventoryObjectFromOrc :: "row \<Rightarrow> panic + InventoryObject" where
  "inventoryObjectFromOrc rowData =
     bindP (bindP (index rowData 0) asString) (\<lambda>b.
     bindP (bindP (index rowData 1) asString) (\<lambda>k.
     bindP (bindP (index rowData 2) asInt64) (\<lambda>sz.
     bindP (bindP (index rowData 3) asTimeUnix) (\<lambda>t.
       Inr \<lparr>Bucket = b, Key = k, Size = Some sz, LastModified = Some t\<rparr>))))"

text \<open>
  The head of \<^verbatim>\<open>Read\<close>'s loop: \<^verbatim>\<open>if !r.c.Next() { if !r.c.Stripes() { return nil } else if
  !r.c.Next() { return nil } }\<close>. The answer \<open>False\<close> is the \<^verbatim>\<open>return nil\<close>.
\<close>

definition Read_advance :: "Cursor \<Rightarrow> bool \<times> Cursor" where
  "Read_advance c0 =
     (case Next c0 of
        (True, c1) \<Rightarrow> (True, c1)
      | (False, c1) \<Rightarrow>
          (case Stripes c1 of
             (False, c2) \<Rightarrow> (False, c2)
           | (True, c2) \<Rightarrow>
               (case Next c2 of
                  (False, c3) \<Rightarrow> (False, c3)
                | (True, c3) \<Rightarrow> (True, c3))))"

lemma Read_advance_decreases:
  "fst (Read_advance c0) \<Longrightarrow>
   length (rowsLeft (snd (Read_advance c0))) < length (rowsLeft c0)"
  by (auto simp: Read_advance_def Next_def Stripes_def rowsLeft_def
           split: list.splits prod.splits)

text \<open>
  The loop of \<^verbatim>\<open>Read\<close>. It ends in one of three ways: a panic of the conversion; \<open>None\<close>, the
  \<^verbatim>\<open>return nil\<close> inside the loop, which leaves the function before the result is stored;
  \<open>Some res\<close>, the \<^verbatim>\<open>break\<close> at \<^verbatim>\<open>len(res) == num\<close>.
\<close>

function Read_loop ::
  "nat \<Rightarrow> InventoryObject list \<Rightarrow> Cursor \<Rightarrow> panic + (InventoryObject list option \<times> Cursor)"
where
  "Read_loop num res c0 =
     (if fst (Read_advance c0) then
        (case inventoryObjectFromOrc (Row (snd (Read_advance c0))) of
           Inl p \<Rightarrow> Inl p
         | Inr obj \<Rightarrow>
             (if length (res @ [obj]) = num
              then Inr (Some (res @ [obj]), snd (Read_advance c0))
              else Read_loop num (res @ [obj]) (snd (Read_advance c0))))
      else Inr (None, snd (Read_advance c0)))"
  by pat_completeness auto
termination
  by (relation "measure (\<lambda>(num, res, c0). length (rowsLeft c0))")
     (auto simp: Read_advance_decreases)

declare Read_loop.simps [simp del]

text \<open>
  \<^verbatim>\<open>Read\<close>: \<open>dst\<close> is the caller's slice, whose length is the capacity \<^verbatim>\<open>num\<close>. The result is
  the returned error (always nil), the caller's slice after the call, and the reader with
  its cursor advanced. The slice is overwritten only when the loop was left by \<^verbatim>\<open>break\<close>.
\<close>

definition Read ::
  "OrcManifestFileReader \<Rightarrow> InventoryObject list \<Rightarrow>
   panic + (error option \<times> InventoryObject list \<times> OrcManifestFileReader)"
where
  "Read r dst =
     (case Read_loop (length dst) [] (c r) of
        Inl p \<Rightarrow> Inl p
      | Inr (None, c') \<Rightarrow> Inr (None, dst, r\<lparr>c := c'\<rparr>)
      | Inr (Some res, c') \<Rightarrow> Inr (None, res, r\<lparr>c := c'\<rparr>))"

definition GetNumRows :: "OrcManifestFileReader \<Rightarrow> int64" where
  "GetNumRows r = of_nat (NumRows (reader r))"

text \<open>
  \<^verbatim>\<open>SkipRows\<close>: the inner loop \<^verbatim>\<open>for r.c.Next() { r.c.Row(); skipped += 1; if skipped == i
  { return nil } }\<close> answers \<open>True\<close> for the \<^verbatim>\<open>return nil\<close>; the outer loop is
  \<^verbatim>\<open>for r.c.Stripes() { ... }\<close>, followed by the error.
\<close>

function SkipRows_rows :: "int64 \<Rightarrow> int64 \<Rightarrow> Cursor \<Rightarrow> bool \<times> int64 \<times> Cursor" where
  "SkipRows_rows i skipped c0 =
     (if fst (Next c0) then
        (if skipped + 1 = i then (True, skipped + 1, snd (Next c0))
         else SkipRows_rows i (skipped + 1) (snd (Next c0)))
      else (False, skipped, snd (Next c0)))"
  by pat_completeness auto
termination
  by (relation "measure (\<lambda>(i, skipped, c0). length (stripeRows c0))")
     (auto simp: Next_def split: list.splits)

declare SkipRows_rows.simps [simp del]

lemma Stripes_decreases:
  "fst (Stripes c0) \<Longrightarrow> length (stripesLeft (snd (Stripes c0))) < length (stripesLeft c0)"
  by (simp add: Stripes_def split: list.splits)

lemma SkipRows_rows_stripesLeft:
  "stripesLeft (snd (snd (SkipRows_rows i skipped c0))) = stripesLeft c0"
proof (induction i skipped c0 rule: SkipRows_rows.induct)
  case (1 i skipped c0)
  show ?case
  proof (cases "fst (Next c0)")
    case True
    have n: "stripesLeft (snd (Next c0)) = stripesLeft c0"
      by (simp add: Next_def split: list.splits)
    show ?thesis
    proof (cases "skipped + 1 = i")
      case True
      with \<open>fst (Next c0)\<close> n show ?thesis
        by (subst SkipRows_rows.simps) simp
    next
      case False
      with \<open>fst (Next c0)\<close> n "1.IH" show ?thesis
        by (subst SkipRows_rows.simps) simp
    qed
  next
    case False
    then show ?thesis
      by (subst SkipRows_rows.simps) (simp add: Next_def split: list.splits)
  qed
qed

function SkipRows_stripes :: "int64 \<Rightarrow> int64 \<Rightarrow> Cursor \<Rightarrow> error option \<times> Cursor" where
  "SkipRows_stripes i skipped c0 =
     (if fst (Stripes c0) then
        (if fst (SkipRows_rows i skipped (snd (Stripes c0)))
         then (None, snd (snd (SkipRows_rows i skipped (snd (Stripes c0)))))
         else SkipRows_stripes i
                (fst (snd (SkipRows_rows i skipped (snd (Stripes c0)))))
                (snd (snd (SkipRows_rows i skipped (snd (Stripes c0))))))
      else (Some ErrNoMoreRowsToSkip, snd (Stripes c0)))"
  by pat_completeness auto
termination
  by (relation "measure (\<lambda>(i, skipped, c0). length (stripesLeft c0))")
     (simp_all add: case_prod_beta SkipRows_rows_stripesLeft Stripes_decreases)

declare SkipRows_stripes.simps [simp del]

definition SkipRows :: "OrcManifestFileReader \<Rightarrow> int64 \<Rightarrow> error option \<times> OrcManifestFileReader" where
  "SkipRows r i =
     (if i = 0 then (None, r)
      else (case SkipRows_stripes i 0 (c r) of (e, c') \<Rightarrow> (e, r\<lparr>c := c'\<rparr>)))"

section \<open>The streaming-format adapter\<close>

text \<open>
  \<^verbatim>\<open>ParquetManifestFileReader\<close> embeds the Parquet library's reader by value. Of that reader
  the model keeps the two resources a close is about: the per-column streams, which the
  library's \<^verbatim>\<open>ReadStop\<close> closes, and the file handle the reader was opened on.
\<close>

record ParquetReader =
  columnStreamsOpen :: bool
  PFileOpen :: bool

record ParquetManifestFileReader =
  ParquetReader :: ParquetReader

definition ReadStop :: "ParquetManifestFileReader \<Rightarrow> ParquetManifestFileReader" where
  "ReadStop p = p\<lparr>ParquetReader := (ParquetReader p)\<lparr>columnStreamsOpen := False\<rparr>\<rparr>"

text \<open>
  \<^verbatim>\<open>func (p *ParquetManifestFileReader) Close() error { p.ReadStop(); return p.Close() }\<close>:
  the selector \<^verbatim>\<open>p.Close\<close> is this very method, so the body calls itself. A call that
  does not return is the value \<open>None\<close>.
\<close>

partial_function (option) ParquetManifestFileReader_Close ::
  "ParquetManifestFileReader \<Rightarrow> (error option \<times> ParquetManifestFileReader) option"
where
  "ParquetManifestFileReader_Close p = ParquetManifestFileReader_Close (ReadStop p)"

section \<open>The reader factory and its materialization cache\<close>

datatype ManifestFileReader =
    OrcMFR OrcManifestFileReader
  | ParquetMFR ParquetManifestFileReader

text \<open>
  What the program does to the outside: the temporary files that exist on the local disk,
  and the calls made to the S3 downloader (bucket, key, destination file), to \<^verbatim>\<open>orc.Open\<close>
  and to \<^verbatim>\<open>os.Remove\<close>, each in the order made.
\<close>

record World =
  localFiles :: "string set"
  downloadCalls :: "(string \<times> string \<times> string) list"
  openCalls :: "string list"
  removeCalls :: "string list"

text \<open>
  What the outside answers during one call of \<^verbatim>\<open>GetManifestFileReader\<close>: the outcome of
  \<^verbatim>\<open>ioutil.TempFile\<close> (an error or the name of the file created), of
  \<^verbatim>\<open>DownloadWithContext\<close> (an error, which a cancelled context is too, or nil), of
  \<^verbatim>\<open>orc.Open\<close> on a path, of \<^verbatim>\<open>NewS3FileReaderWithClient\<close> and of \<^verbatim>\<open>NewParquetReader\<close>.
\<close>

record Env =
  tempFile :: "error + string"
  downloadWithContext :: "error option"
  orcOpen :: "string \<Rightarrow> error + OrcFileData"
  newS3FileReader :: "error option"
  newParquetReader :: "error + ParquetReader"

definition osRemove :: "string \<Rightarrow> World \<Rightarrow> World" where
  "osRemove name w =
     w\<lparr>localFiles := localFiles w - {name}, removeCalls := removeCalls w @ [name]\<rparr>"

text \<open>
  \<^verbatim>\<open>clean\<close>: \<^verbatim>\<open>o.orcFilesByKey[key]\<close> is the nil pointer when the key is absent, and reading
  \<^verbatim>\<open>.localFilename\<close> through it panics. The deferred \<^verbatim>\<open>os.Remove\<close> runs on return; its error
  is dropped.
\<close>

definition clean :: "InventoryReader \<Rightarrow> string \<Rightarrow> World \<Rightarrow> panic + (InventoryReader \<times> World)" where
  "clean mgr k w =
     (case orcFilesByKey mgr k of
        None \<Rightarrow> Inl NilPointerDereference
      | Some file \<Rightarrow>
          Inr (mgr\<lparr>orcFilesByKey := (orcFilesByKey mgr)(k := None)\<rparr>,
               osRemove (localFilename file) w))"

definition download ::
  "Env \<Rightarrow> InventoryReader \<Rightarrow> string \<Rightarrow> World \<Rightarrow> (error + string) \<times> World"
where
  "download env mgr k w =
     (case tempFile env of
        Inl err \<Rightarrow> (Inl err, w)
      | Inr f \<Rightarrow>
          (let w1 = w\<lparr>localFiles := insert f (localFiles w)\<rparr>;
               w2 = w1\<lparr>downloadCalls :=
                         downloadCalls w1 @ [(inventoryBucket (manifest mgr), k, f)]\<rparr>
           in case downloadWithContext env of
                Some err \<Rightarrow> (Inl err, w2)
              | None \<Rightarrow> (Inr f, w2)))"

definition getParquetReader ::
  "Env \<Rightarrow> InventoryReader \<Rightarrow> string \<Rightarrow> World \<Rightarrow>
   (error + ManifestFileReader) \<times> InventoryReader \<times> World"
where
  "getParquetReader env mgr k w =
     (case newS3FileReader env of
        Some err \<Rightarrow> (Inl (Wrapf ''failed to create parquet file reader'' err), mgr, w)
      | None \<Rightarrow>
          (case newParquetReader env of
             Inl err \<Rightarrow> (Inl (Wrapf ''failed to create parquet reader'' err), mgr, w)
           | Inr pr \<Rightarrow> (Inr (ParquetMFR \<lparr>ParquetReader = pr\<rparr>), mgr, w)))"

text \<open>
  The loop \<^verbatim>\<open>for idx, f := range o.manifest.Files { if f.Key == key { file.idx = idx; break } }\<close>.
\<close>

fun setIdx :: "ManifestFile list \<Rightarrow> nat \<Rightarrow> string \<Rightarrow> orcFile \<Rightarrow> orcFile" where
  "setIdx [] i k file = file"
| "setIdx (f # fs) i k file = (if FileKey f = k then file\<lparr>idx := i\<rparr> else setIdx fs (Suc i) k file)"

text \<open>
  The tail of \<^verbatim>\<open>getOrcReader\<close>, from \<^verbatim>\<open>orc.Open(file.localFilename)\<close> on.
\<close>

definition openOrcReader ::
  "Env \<Rightarrow> InventoryReader \<Rightarrow> string \<Rightarrow> orcFile \<Rightarrow> World \<Rightarrow>
   (error + ManifestFileReader) \<times> InventoryReader \<times> World"
where
  "openOrcReader env mgr k file w =
     (let w1 = w\<lparr>openCalls := openCalls w @ [localFilename file]\<rparr>
      in case orcOpen env (localFilename file) of
           Inl err \<Rightarrow> (Inl err, mgr, w1)
         | Inr orcReader \<Rightarrow>
             (Inr (OrcMFR \<lparr>reader = orcReader, c = Select orcReader, rkey = k\<rparr>), mgr, w1))"

text \<open>
  \<^verbatim>\<open>getOrcReader\<close>: the map holds pointers, so every assignment through \<^verbatim>\<open>file\<close> is an
  update of the map's entry.
\<close>

definition getOrcReader ::
  "Env \<Rightarrow> InventoryReader \<Rightarrow> string \<Rightarrow> World \<Rightarrow>
   (error + ManifestFileReader) \<times> InventoryReader \<times> World"
where
  "getOrcReader env mgr k w =
     (let file0 = (case orcFilesByKey mgr k of
                     Some file \<Rightarrow> file
                   | None \<Rightarrow> \<lparr>key = k, idx = 0, localFilename = [], ready = False\<rparr>);
          file1 = setIdx (Files (manifest mgr)) 0 k file0;
          mgr1 = mgr\<lparr>orcFilesByKey := (orcFilesByKey mgr)(k \<mapsto> file1)\<rparr>
      in if \<not> ready file1 then
           (case download env mgr1 k w of
              (Inl err, w1) \<Rightarrow> (Inl err, mgr1, w1)
            | (Inr name, w1) \<Rightarrow>
                (let file2 = file1\<lparr>ready := True, localFilename := name\<rparr>;
                     mgr2 = mgr1\<lparr>orcFilesByKey := (orcFilesByKey mgr1)(k \<mapsto> file2)\<rparr>
                 in openOrcReader env mgr2 k file2 w1))
         else openOrcReader env mgr1 k file1 w)"

definition GetManifestFileReader ::
  "Env \<Rightarrow> InventoryReader \<Rightarrow> string \<Rightarrow> World \<Rightarrow>
   (error + ManifestFileReader) \<times> InventoryReader \<times> World"
where
  "GetManifestFileReader env mgr k w =
     (if Format (manifest mgr) = ''ORC'' then getOrcReader env mgr k w
      else if Format (manifest mgr) = ''Parquet'' then getParquetReader env mgr k w
      else (Inl ErrUnsupportedInventoryFormat, mgr, w))"

text \<open>
  \<^verbatim>\<open>Close\<close> of the materialization-format reader. \<open>cErr\<close> and \<open>rErr\<close> are what
  \<^verbatim>\<open>r.c.Close()\<close> and \<^verbatim>\<open>r.reader.Close()\<close> return; both are assigned to \<^verbatim>\<open>_\<close>.
\<close>

definition OrcManifestFileReader_Close ::
  "error option \<Rightarrow> error option \<Rightarrow> OrcManifestFileReader \<Rightarrow> InventoryReader \<Rightarrow> World \<Rightarrow>
   panic + (error option \<times> InventoryReader \<times> World)"
where
  "OrcManifestFileReader_Close cErr rErr r mgr w =
     (case clean mgr (rkey r) w of
        Inl p \<Rightarrow> Inl p
      | Inr (mgr', w') \<Rightarrow> Inr (None, mgr', w'))"


text \<open>
  The state of the cache between calls: an entry that is not ready records no local path.
\<close>

definition cacheInv :: "InventoryReader \<Rightarrow> bool" where
  "cacheInv mgr =
     (\<forall>k file. orcFilesByKey mgr k = Some file \<longrightarrow> \<not> ready file \<longrightarrow> localFilename file = [])"

section \<open>Concrete inputs\<close>

definition zeroObject :: InventoryObject where
  "zeroObject = \<lparr>Bucket = [], Key = [], Size = None, LastModified = None\<rparr>"

definition exRow :: "string \<Rightarrow> row" where
  "exRow k = [OrcString ''b'', OrcString k, OrcInt64 7, OrcTime 9]"

definition exObject :: "string \<Rightarrow> InventoryObject" where
  "exObject k = \<lparr>Bucket = ''b'', Key = k, Size = Some 7, LastModified = Some 9\<rparr>"

definition exFile :: "string list list \<Rightarrow> OrcFileData" where
  "exFile kss = \<lparr>stripes = map (map exRow) kss, numberOfRows = length (concat kss)\<rparr>"

definition exReader :: "string list list \<Rightarrow> OrcManifestFileReader" where
  "exReader kss = \<lparr>reader = exFile kss, c = Select (exFile kss), rkey = ''inv/data1.orc''\<rparr>"

definition readerAt ::
  "string list list \<Rightarrow> string list \<Rightarrow> string \<Rightarrow> string list list \<Rightarrow> OrcManifestFileReader"
where
  "readerAt kss cur k left =
     (exReader kss)\<lparr>c := \<lparr>stripeRows = map exRow cur, nextVal = exRow k,
                           stripesLeft = map (map exRow) left\<rparr>\<rparr>"

definition exManifest :: "string \<Rightarrow> Manifest" where
  "exManifest fmt =
     \<lparr>Format = fmt, inventoryBucket = ''inv-bucket'',
      Files = [\<lparr>FileKey = ''inv/data0.orc''\<rparr>, \<lparr>FileKey = ''inv/data1.orc''\<rparr>]\<rparr>"

definition exEntry :: orcFile where
  "exEntry = \<lparr>key = ''inv/data1.orc'', idx = 1, localFilename = ''/tmp/data1.orc123'',
              ready = True\<rparr>"

definition exMgr :: InventoryReader where
  "exMgr = \<lparr>manifest = exManifest ''ORC'', orcFilesByKey = [''inv/data1.orc'' \<mapsto> exEntry]\<rparr>"

definition exFresh :: "string \<Rightarrow> InventoryReader" where
  "exFresh fmt = NewInventoryReader\<lparr>manifest := exManifest fmt\<rparr>"

definition exWorld :: World where
  "exWorld = \<lparr>localFiles = {}, downloadCalls = [], openCalls = [], removeCalls = []\<rparr>"

definition exEnv :: "error option \<Rightarrow> Env" where
  "exEnv dl =
     \<lparr>tempFile = Inr ''/tmp/data1.orc123'', downloadWithContext = dl,
      orcOpen = (\<lambda>name. Inr (exFile [[''1'', ''2'', ''3''], [''4'', ''5'']])),
      newS3FileReader = None,
      newParquetReader = Inr \<lparr>columnStreamsOpen = True, PFileOpen = True\<rparr>\<rparr>"

section \<open>Properties\<close>

subsection \<open>Helper facts\<close>

lemma Read_loop_Some_length:
  "Read_loop num res c0 = Inr (Some res', c') \<Longrightarrow> length res' = num"
proof (induction num res c0 rule: Read_loop.induct)
  case (1 num res c0)
  from "1.prems" show ?case
    by (subst (asm) Read_loop.simps) (auto split: if_splits sum.splits dest: "1.IH")
qed

lemma Read_buffer_length:
  "Read r dst = Inr (e, dst', r') \<Longrightarrow> length dst' = length dst \<and> e = None"
  by (auto simp: Read_def split: sum.splits prod.splits option.splits
           dest: Read_loop_Some_length)

text \<open>
  What \<^verbatim>\<open>Read\<close> does in general, on a cursor whose stripes to come are not empty and whose
  rows convert without a panic: while at least as many rows are left as the buffer holds,
  a call stores exactly the next \<open>length dst\<close> records, in order; when fewer are left
  (or the buffer has length 0), a call consumes all of them and leaves the buffer as it was.
\<close>

lemma Read_advance_row:
  assumes "rowsLeft c0 = x # xs" and "[] \<notin> set (stripesLeft c0)"
  shows "fst (Read_advance c0) \<and> Row (snd (Read_advance c0)) = x \<and>
         rowsLeft (snd (Read_advance c0)) = xs \<and>
         [] \<notin> set (stripesLeft (snd (Read_advance c0)))"
proof (cases "stripeRows c0")
  case Nil
  with assms obtain s ss where s: "stripesLeft c0 = s # ss"
    by (cases "stripesLeft c0") (auto simp: rowsLeft_def)
  with assms(2) obtain y ys where y: "s = y # ys"
    by (cases s) auto
  show ?thesis
    using assms Nil s y
    by (simp add: Read_advance_def Next_def Stripes_def Row_def rowsLeft_def)
next
  case (Cons y ys)
  then show ?thesis
    using assms
    by (simp add: Read_advance_def Next_def Row_def rowsLeft_def)
qed

lemma Read_advance_end:
  assumes "rowsLeft c0 = []"
  shows "\<not> fst (Read_advance c0) \<and> rowsLeft (snd (Read_advance c0)) = []"
  using assms
  by (auto simp: Read_advance_def Next_def Stripes_def rowsLeft_def split: list.splits)

lemma Read_loop_full_batch:
  assumes "[] \<notin> set (stripesLeft c0)"
    and "n = num - length res" and "0 < n" and "n \<le> length (rowsLeft c0)"
    and "map inventoryObjectFromOrc (take n (rowsLeft c0)) = map Inr objs"
  shows "\<exists>c'. Read_loop num res c0 = Inr (Some (res @ objs), c') \<and>
              rowsLeft c' = drop n (rowsLeft c0) \<and> [] \<notin> set (stripesLeft c')"
  using assms
proof (induction n arbitrary: res c0 objs)
  case 0
  then show ?case by simp
next
  case (Suc n)
  from Suc.prems(4) obtain x xs where x: "rowsLeft c0 = x # xs"
    by (cases "rowsLeft c0") auto
  with Suc.prems(5) obtain obj objs' where o: "objs = obj # objs'"
    "inventoryObjectFromOrc x = Inr obj"
    "map inventoryObjectFromOrc (take n xs) = map Inr objs'"
    by (cases objs) auto
  let ?c1 = "snd (Read_advance c0)"
  note a = Read_advance_row [OF x Suc.prems(1)]
  show ?case
  proof (cases n)
    case 0
    then have l: "length (res @ [obj]) = num" using Suc.prems(2) by simp
    have o': "objs' = []" using o(3) 0 by simp
    have "Read_loop num res c0 = Inr (Some (res @ [obj]), ?c1)"
      using a o(2) l by (subst Read_loop.simps) simp
    then show ?thesis
      using a x 0 o(1) o' by simp
  next
    case (Suc m)
    then have l: "length (res @ [obj]) \<noteq> num" using Suc.prems(2) by simp
    have e: "Read_loop num res c0 = Read_loop num (res @ [obj]) ?c1"
      using a o(2) l by (subst Read_loop.simps) simp
    have "\<exists>c'. Read_loop num (res @ [obj]) ?c1 = Inr (Some ((res @ [obj]) @ objs'), c') \<and>
              rowsLeft c' = drop n (rowsLeft ?c1) \<and> [] \<notin> set (stripesLeft c')"
    proof (rule Suc.IH)
      show "[] \<notin> set (stripesLeft ?c1)" using a by simp
      show "n = num - length (res @ [obj])" using Suc.prems(2) by simp
      show "0 < n" using Suc by simp
      show "n \<le> length (rowsLeft ?c1)" using a x Suc.prems(4) by simp
      show "map inventoryObjectFromOrc (take n (rowsLeft ?c1)) = map Inr objs'"
        using a o(3) by simp
    qed
    then show ?thesis
      using e a x o(1) by simp
  qed
qed

lemma Read_loop_short_tail:
  assumes "[] \<notin> set (stripesLeft c0)"
    and "rowsLeft c0 = rows" and "length res + length rows < num \<or> num < Suc (length res)"
    and "map inventoryObjectFromOrc rows = map Inr objs"
  shows "\<exists>c'. Read_loop num res c0 = Inr (None, c') \<and> rowsLeft c' = []"
  using assms
proof (induction rows arbitrary: res c0 objs)
  case Nil
  then show ?case
    using Read_advance_end [of c0] by (subst Read_loop.simps) simp
next
  case (Cons x xs)
  from Cons.prems(4) obtain obj objs' where o: "objs = obj # objs'"
    "inventoryObjectFromOrc x = Inr obj" "map inventoryObjectFromOrc xs = map Inr objs'"
    by (cases objs) auto
  let ?c1 = "snd (Read_advance c0)"
  note a = Read_advance_row [OF Cons.prems(2) Cons.prems(1)]
  have l: "length (res @ [obj]) \<noteq> num" using Cons.prems(3) by auto
  have e: "Read_loop num res c0 = Read_loop num (res @ [obj]) ?c1"
    using a o(2) l by (subst Read_loop.simps) simp
  have "\<exists>c'. Read_loop num (res @ [obj]) ?c1 = Inr (None, c') \<and> rowsLeft c' = []"
  proof (rule Cons.IH)
    show "[] \<notin> set (stripesLeft ?c1)" using a by simp
    show "rowsLeft ?c1 = xs" using a by simp
    show "length (res @ [obj]) + length xs < num \<or> num < Suc (length (res @ [obj]))"
      using Cons.prems(3) by auto
    show "map inventoryObjectFromOrc xs = map Inr objs'" by (rule o(3))
  qed
  then show ?case by (simp add: e)
qed

lemma Read_full_batch:
  assumes "[] \<notin> set (stripesLeft (c r))"
    and "0 < length dst" and "length dst \<le> length (rowsLeft (c r))"
    and "map inventoryObjectFromOrc (take (length dst) (rowsLeft (c r))) = map Inr objs"
  shows "\<exists>r'. Read r dst = Inr (None, objs, r') \<and>
              rowsLeft (c r') = drop (length dst) (rowsLeft (c r))"
  using Read_loop_full_batch [OF assms(1) _ assms(2) assms(3) assms(4), of "length dst" "[]"]
  by (auto simp: Read_def)

lemma Read_short_tail:
  assumes "[] \<notin> set (stripesLeft (c r))"
    and "length (rowsLeft (c r)) < length dst \<or> length dst = 0"
    and "map inventoryObjectFromOrc (rowsLeft (c r)) = map Inr objs"
  shows "\<exists>r'. Read r dst = Inr (None, dst, r') \<and> rowsLeft (c r') = []"
proof -
  have "length ([] :: InventoryObject list) + length (rowsLeft (c r)) < length dst \<or>
        length dst < Suc (length ([] :: InventoryObject list))"
    using assms(2) by auto
  from Read_loop_short_tail [OF assms(1) refl this assms(3)] show ?thesis
    by (auto simp: Read_def)
qed

text \<open>
  Once \<open>Stripes\<close> has answered no, \<open>Next\<close> and \<open>Stripes\<close> answer no from then on. So after a
  \<^verbatim>\<open>SkipRows\<close> that failed while rows of the current stripe were left, a \<^verbatim>\<open>Read\<close> stores
  nothing: here on a file of 3 rows in one stripe, of which row 1 has been read.
\<close>

lemma Stripes_False_end:
  "\<not> fst (Stripes c0) \<Longrightarrow>
   \<not> fst (Next (snd (Stripes c0))) \<and> \<not> fst (Stripes (snd (Stripes c0))) \<and>
   rowsLeft (snd (Stripes c0)) = []"
  by (simp add: Stripes_def Next_def rowsLeft_def split: list.splits)

lemma Read_after_failed_SkipRows:
  "SkipRows (readerAt [[''1'', ''2'', ''3'']] [''2'', ''3''] ''1'' []) 5 =
     (Some ErrNoMoreRowsToSkip, readerAt [[''1'', ''2'', ''3'']] [] ''1'' []) \<and>
   Read (readerAt [[''1'', ''2'', ''3'']] [] ''1'' []) (replicate 1 zeroObject) =
     Inr (None, replicate 1 zeroObject, readerAt [[''1'', ''2'', ''3'']] [] ''1'' [])"
  by code_simp

text \<open>
  What \<^verbatim>\<open>SkipRows\<close> does on a reader just opened: the counter \<^verbatim>\<open>skipped\<close> stays below \<open>i\<close>
  until the \<open>i\<close>-th row, so it never wraps; with at least \<open>unat i\<close> rows in the file the
  call returns nil and exactly the rows after the first \<open>unat i\<close> are left; with fewer it
  returns the error. (A negative \<open>i\<close> is a large \<open>unat i\<close>.)
\<close>

lemma unat_succ_below:
  fixes skipped i :: int64
  assumes "unat skipped < unat i"
  shows "unat (skipped + 1) = Suc (unat skipped)"
    and "(skipped + 1 = i) = (Suc (unat skipped) = unat i)"
proof -
  have "unat i < 2 ^ 64" using unsigned_less [of i] by simp
  with assms have "unat skipped + unat (1 :: int64) < 2 ^ LENGTH(64)" by simp
  then have "unat (skipped + 1) = unat skipped + unat (1 :: int64)"
    by (simp only: unat_add_lem)
  then show a: "unat (skipped + 1) = Suc (unat skipped)" by simp
  show "(skipped + 1 = i) = (Suc (unat skipped) = unat i)"
    using a by (metis word_unat_eq_iff)
qed

lemma SkipRows_rows_spec:
  assumes "unat skipped < unat i" and "stripeRows c0 = rs"
  shows "(unat i - unat skipped \<le> length rs \<longrightarrow>
            fst (SkipRows_rows i skipped c0) \<and>
            stripeRows (snd (snd (SkipRows_rows i skipped c0))) = drop (unat i - unat skipped) rs) \<and>
         (length rs < unat i - unat skipped \<longrightarrow>
            \<not> fst (SkipRows_rows i skipped c0) \<and>
            unat (fst (snd (SkipRows_rows i skipped c0))) = unat skipped + length rs \<and>
            stripeRows (snd (snd (SkipRows_rows i skipped c0))) = [])"
  using assms
proof (induction rs arbitrary: skipped c0)
  case Nil
  then show ?case
    by (subst (1 2 3 4 5) SkipRows_rows.simps) (simp add: Next_def)
next
  case (Cons x xs)
  have n: "fst (Next c0)" "stripeRows (snd (Next c0)) = xs"
    using Cons.prems(2) by (simp_all add: Next_def)
  note u = unat_succ_below [OF Cons.prems(1)]
  show ?case
  proof (cases "skipped + 1 = i")
    case True
    then have "unat i - unat skipped = 1" using u by simp
    with True n show ?thesis
      by (subst (1 2 3 4 5) SkipRows_rows.simps) simp
  next
    case False
    then have lt: "unat (skipped + 1) < unat i" using u Cons.prems(1) by simp
    have e: "SkipRows_rows i skipped c0 = SkipRows_rows i (skipped + 1) (snd (Next c0))"
      using False n by (subst SkipRows_rows.simps) simp
    have d: "unat i - unat skipped = Suc (unat i - unat (skipped + 1))"
      using lt u by simp
    show ?thesis
      using Cons.IH [OF lt n(2)] by (simp add: e d u)
  qed
qed

lemma SkipRows_stripes_spec:
  assumes "unat skipped < unat i" and "stripesLeft c0 = ss"
  shows "(unat i - unat skipped \<le> length (concat ss) \<longrightarrow>
            fst (SkipRows_stripes i skipped c0) = None \<and>
            rowsLeft (snd (SkipRows_stripes i skipped c0)) = drop (unat i - unat skipped) (concat ss)) \<and>
         (length (concat ss) < unat i - unat skipped \<longrightarrow>
            fst (SkipRows_stripes i skipped c0) = Some ErrNoMoreRowsToSkip)"
  using assms
proof (induction ss arbitrary: skipped c0)
  case Nil
  then show ?case
    by (subst (1 2 3) SkipRows_stripes.simps) (simp add: Stripes_def)
next
  case (Cons s ss)
  let ?c1 = "snd (Stripes c0)"
  let ?res = "SkipRows_rows i skipped ?c1"
  have st: "fst (Stripes c0)" "stripeRows ?c1 = s" "stripesLeft ?c1 = ss"
    using Cons.prems(2) by (simp_all add: Stripes_def)
  note rows = SkipRows_rows_spec [OF Cons.prems(1) st(2)]
  have sl: "stripesLeft (snd (snd ?res)) = ss"
    by (simp add: SkipRows_rows_stripesLeft st)
  show ?case
  proof (cases "unat i - unat skipped \<le> length s")
    case True
    with rows have r: "fst ?res" "stripeRows (snd (snd ?res)) = drop (unat i - unat skipped) s"
      by simp_all
    have e: "SkipRows_stripes i skipped c0 = (None, snd (snd ?res))"
      using st r by (subst SkipRows_stripes.simps) simp
    show ?thesis
      using True by (simp add: e rowsLeft_def r sl)
  next
    case False
    with rows have r: "\<not> fst ?res" "unat (fst (snd ?res)) = unat skipped + length s"
      by simp_all
    have e: "SkipRows_stripes i skipped c0 =
               SkipRows_stripes i (fst (snd ?res)) (snd (snd ?res))"
      using st r by (subst SkipRows_stripes.simps) simp
    have lt: "unat (fst (snd ?res)) < unat i"
      using False r by simp
    have d: "unat i - unat (fst (snd ?res)) = unat i - unat skipped - length s"
      using r by simp
    show ?thesis
      using Cons.IH [OF lt sl] False by (simp add: e d)
  qed
qed

lemma SkipRows_fresh:
  assumes "c r = Select f" and "i \<noteq> 0"
  shows "(unat i \<le> length (allRows f) \<longrightarrow>
            fst (SkipRows r i) = None \<and>
            rowsLeft (c (snd (SkipRows r i))) = drop (unat i) (allRows f)) \<and>
         (length (allRows f) < unat i \<longrightarrow> fst (SkipRows r i) = Some ErrNoMoreRowsToSkip)"
proof -
  have p: "unat (0 :: int64) < unat i"
    using assms(2) by (simp add: unat_gt_0)
  have s: "stripesLeft (c r) = stripes f"
    by (simp add: assms(1) Select_def)
  show ?thesis
    using SkipRows_stripes_spec [OF p s] assms(2)
    by (simp add: SkipRows_def allRows_def case_prod_beta)
qed

lemma ParquetManifestFileReader_Close_not_Some:
  "ParquetManifestFileReader_Close p = Some y \<Longrightarrow> False"
  using ParquetManifestFileReader_Close.raw_induct [where P = "\<lambda>_ _. False" and p = p and y = y]
  by blast

lemma setIdx_fields:
  "ready (setIdx fs i k ent) = ready ent \<and>
   localFilename (setIdx fs i k ent) = localFilename ent \<and>
   key (setIdx fs i k ent) = key ent"
  by (induction fs i k ent rule: setIdx.induct) simp_all

lemma fst_download:
  "fst (download env mgr k w) =
     (case tempFile env of
        Inl err \<Rightarrow> Inl err
      | Inr f \<Rightarrow> (case downloadWithContext env of Some err \<Rightarrow> Inl err | None \<Rightarrow> Inr f))"
  by (simp add: download_def Let_def split: sum.splits option.splits)


lemma openOrcReader_effect:
  "fst (snd (openOrcReader env mgr k ent w)) = mgr \<and>
   snd (snd (openOrcReader env mgr k ent w)) = w\<lparr>openCalls := openCalls w @ [localFilename ent]\<rparr>"
  by (simp add: openOrcReader_def Let_def split: sum.splits)




text \<open>The invariant of the cache holds at the start and is kept by every operation.\<close>

lemma cacheInv_NewInventoryReader: "cacheInv NewInventoryReader"
  by (simp add: cacheInv_def NewInventoryReader_def)

lemma cacheInv_manifest: "cacheInv (mgr\<lparr>manifest := m\<rparr>) = cacheInv mgr"
  by (simp add: cacheInv_def)

lemma cacheInv_update:
  "cacheInv mgr \<Longrightarrow> (\<not> ready ent \<Longrightarrow> localFilename ent = []) \<Longrightarrow>
   cacheInv (mgr\<lparr>orcFilesByKey := (orcFilesByKey mgr)(k \<mapsto> ent)\<rparr>)"
  by (simp add: cacheInv_def)

lemma cacheInv_entry0:
  "cacheInv mgr \<Longrightarrow>
   \<not> ready (case orcFilesByKey mgr k of Some ent \<Rightarrow> ent
             | None \<Rightarrow> \<lparr>key = k, idx = 0, localFilename = [], ready = False\<rparr>) \<Longrightarrow>
   localFilename (case orcFilesByKey mgr k of Some ent \<Rightarrow> ent
             | None \<Rightarrow> \<lparr>key = k, idx = 0, localFilename = [], ready = False\<rparr>) = []"
  by (auto simp: cacheInv_def split: option.splits)

lemma cacheInv_getOrcReader:
  assumes "cacheInv mgr"
  shows "cacheInv (fst (snd (getOrcReader env mgr k w)))"
proof -
  let ?ent0 = "case orcFilesByKey mgr k of Some ent \<Rightarrow> ent
               | None \<Rightarrow> \<lparr>key = k, idx = 0, localFilename = [], ready = False\<rparr>"
  let ?ent1 = "setIdx (Files (manifest mgr)) 0 k ?ent0"
  let ?mgr1 = "mgr\<lparr>orcFilesByKey := (orcFilesByKey mgr)(k \<mapsto> ?ent1)\<rparr>"
  have i1: "cacheInv ?mgr1"
    by (rule cacheInv_update [OF assms])
       (use cacheInv_entry0 [OF assms, of k] in \<open>simp add: setIdx_fields\<close>)
  have i2: "cacheInv (?mgr1\<lparr>orcFilesByKey :=
              (orcFilesByKey ?mgr1)(k \<mapsto> ?ent1\<lparr>ready := True, localFilename := name\<rparr>)\<rparr>)" for name
    by (rule cacheInv_update [OF i1]) simp
  show ?thesis
    using i1 i2
    by (simp add: getOrcReader_def Let_def openOrcReader_effect
             split: prod.splits sum.splits)
qed

lemma cacheInv_GetManifestFileReader:
  "cacheInv mgr \<Longrightarrow> cacheInv (fst (snd (GetManifestFileReader env mgr k w)))"
  by (simp add: GetManifestFileReader_def cacheInv_getOrcReader getParquetReader_def
           split: option.splits sum.splits)

lemma cacheInv_clean:
  "cacheInv mgr \<Longrightarrow> clean mgr k w = Inr (mgr', w') \<Longrightarrow> cacheInv mgr'"
  by (auto simp: clean_def cacheInv_def split: option.splits if_splits)

subsection \<open>Claims\<close>

text \<open>
  C1. The scenario of a file of 5 records in two row-groups of 3 and 2, read with capacity 4.
  The first call stores records 1 to 4. The second call moves the cursor past record 5 and
  then finds the data exhausted: it returns nil through the \<^verbatim>\<open>return nil\<close> inside the loop,
  so the caller's buffer is not written and still has its 4 elements, and record 5 is in
  nobody's hands. The third call leaves the buffer as it was too. No call reports 1 or 0
  records.
\<close>
theorem Read_two_row_groups_capacity_4:
  "Read (exReader [[''1'', ''2'', ''3''], [''4'', ''5'']]) (replicate 4 zeroObject) =
     Inr (None, map exObject [''1'', ''2'', ''3'', ''4''],
          readerAt [[''1'', ''2'', ''3''], [''4'', ''5'']] [''5''] ''4'' []) \<and>
   Read (readerAt [[''1'', ''2'', ''3''], [''4'', ''5'']] [''5''] ''4'' []) (replicate 4 zeroObject) =
     Inr (None, replicate 4 zeroObject,
          readerAt [[''1'', ''2'', ''3''], [''4'', ''5'']] [] ''5'' []) \<and>
   Read (readerAt [[''1'', ''2'', ''3''], [''4'', ''5'']] [] ''5'' []) (replicate 4 zeroObject) =
     Inr (None, replicate 4 zeroObject,
          readerAt [[''1'', ''2'', ''3''], [''4'', ''5'']] [] ''5'' [])"
  by code_simp

text \<open>
  C2. A file of 3 records in one row-group, \<^verbatim>\<open>GetNumRows\<close> 3, read with capacity 2 until
  the data is exhausted: the first call stores records 1 and 2, the second consumes record
  3 and stores nothing, the third finds the cursor at the end and stores nothing. Of 3
  records, 2 reach the caller. By \<open>Read_buffer_length\<close> no call ever shortens the buffer,
  and by \<open>Read_short_tail\<close> every last batch that does not fill the buffer is dropped.
\<close>
theorem Read_until_exhaustion_drops_tail:
  "GetNumRows (exReader [[''1'', ''2'', ''3'']]) = 3 \<and>
   Read (exReader [[''1'', ''2'', ''3'']]) (replicate 2 zeroObject) =
     Inr (None, map exObject [''1'', ''2''], readerAt [[''1'', ''2'', ''3'']] [''3''] ''2'' []) \<and>
   Read (readerAt [[''1'', ''2'', ''3'']] [''3''] ''2'' []) (replicate 2 zeroObject) =
     Inr (None, replicate 2 zeroObject, readerAt [[''1'', ''2'', ''3'']] [] ''3'' []) \<and>
   Read (readerAt [[''1'', ''2'', ''3'']] [] ''3'' []) (replicate 2 zeroObject) =
     Inr (None, replicate 2 zeroObject, readerAt [[''1'', ''2'', ''3'']] [] ''3'' [])"
  by code_simp

text \<open>
  C3. \<^verbatim>\<open>Close\<close> of the streaming-format reader does not return, whatever the reader: after
  \<^verbatim>\<open>ReadStop\<close> it calls itself.
\<close>
theorem ParquetManifestFileReader_Close_never_returns:
  "ParquetManifestFileReader_Close p = None"
  using ParquetManifestFileReader_Close_not_Some [of p] by (cases "ParquetManifestFileReader_Close p") auto

text \<open>
  C5. On the file of 5 records (3 + 2), \<^verbatim>\<open>SkipRows(2)\<close> returns nil and leaves the cursor
  before record 3 (as \<open>SkipRows_fresh\<close> says for every file). Of the 3 records that remain,
  reading with capacity 2 stores records 3 and 4; the next call consumes record 5 and stores
  nothing.
\<close>
theorem SkipRows_then_Read_drops_tail:
  "SkipRows (exReader [[''1'', ''2'', ''3''], [''4'', ''5'']]) 2 =
     (None, readerAt [[''1'', ''2'', ''3''], [''4'', ''5'']] [''3''] ''2'' [[''4'', ''5'']]) \<and>
   Read (readerAt [[''1'', ''2'', ''3''], [''4'', ''5'']] [''3''] ''2'' [[''4'', ''5'']])
        (replicate 2 zeroObject) =
     Inr (None, map exObject [''3'', ''4''],
          readerAt [[''1'', ''2'', ''3''], [''4'', ''5'']] [''5''] ''4'' []) \<and>
   Read (readerAt [[''1'', ''2'', ''3''], [''4'', ''5'']] [''5''] ''4'' []) (replicate 2 zeroObject) =
     Inr (None, replicate 2 zeroObject,
          readerAt [[''1'', ''2'', ''3''], [''4'', ''5'']] [] ''5'' [])"
  by code_simp

text \<open>
  C9. \<^verbatim>\<open>SkipRows(0)\<close> returns nil and the reader it leaves is the reader it was given, so
  a \<^verbatim>\<open>Read\<close> after it is the \<^verbatim>\<open>Read\<close> without it, for every reader and every buffer.
\<close>
theorem SkipRows_zero_noop:
  "SkipRows r 0 = (None, r) \<and> Read (snd (SkipRows r 0)) dst = Read r dst"
  by (simp add: SkipRows_def)

text \<open>
  C7. When the manifest's format is neither \<^verbatim>\<open>"ORC"\<close> nor \<^verbatim>\<open>"Parquet"\<close>,
  \<^verbatim>\<open>GetManifestFileReader\<close> returns \<^verbatim>\<open>ErrUnsupportedInventoryFormat\<close> and leaves the cache and
  the outside world (local files, download, open and remove calls) exactly as they were.
\<close>
theorem GetManifestFileReader_unsupported_format:
  assumes "Format (manifest mgr) \<noteq> ''ORC''" and "Format (manifest mgr) \<noteq> ''Parquet''"
  shows "GetManifestFileReader env mgr k w = (Inl ErrUnsupportedInventoryFormat, mgr, w)"
  using assms by (simp add: GetManifestFileReader_def)

theorem GetManifestFileReader_unsupported_format_witness:
  "Format (manifest (exFresh ''CSV'')) \<noteq> ''ORC'' \<and>
   Format (manifest (exFresh ''CSV'')) \<noteq> ''Parquet'' \<and>
   GetManifestFileReader (exEnv None) (exFresh ''CSV'') ''inv/data1.orc''
       exWorld =
     (Inl ErrUnsupportedInventoryFormat, exFresh ''CSV'', exWorld)"
proof -
  have a: "Format (manifest (exFresh ''CSV'')) \<noteq> ''ORC''"
    and b: "Format (manifest (exFresh ''CSV'')) \<noteq> ''Parquet''"
    by (simp_all add: exFresh_def exManifest_def)
  from GetManifestFileReader_unsupported_format [OF a b] a b show ?thesis by simp
qed

text \<open>
  With the entry of its key in the cache, \<^verbatim>\<open>Close\<close> returns nil whatever the cursor's and the
  decoder's own close steps returned, removes that entry and no other, and calls
  \<^verbatim>\<open>os.Remove\<close> once, on the entry's local file.
\<close>

lemma OrcManifestFileReader_Close_with_entry:
  assumes "orcFilesByKey mgr (rkey r) = Some ent"
  shows "OrcManifestFileReader_Close cErr rErr r mgr w =
           Inr (None,
                mgr\<lparr>orcFilesByKey := (orcFilesByKey mgr)(rkey r := None)\<rparr>,
                w\<lparr>localFiles := localFiles w - {localFilename ent},
                  removeCalls := removeCalls w @ [localFilename ent]\<rparr>)"
  using assms by (simp add: OrcManifestFileReader_Close_def clean_def osRemove_def)

text \<open>
  C6. Two requests for one key, as \<^verbatim>\<open>getOrcReader\<close> provides for, give two readers that share
  the one cache entry and the one local file (one download). \<^verbatim>\<open>Close\<close> of the first reader
  removes the entry and the file. \<^verbatim>\<open>Close\<close> of the second reader, its only one, then finds
  no entry for its key: \<^verbatim>\<open>clean\<close> reads \<^verbatim>\<open>.localFilename\<close> through the nil pointer and panics,
  so for this reader \<^verbatim>\<open>Close\<close> neither cleans up nor returns. (The two readers are equal as
  values: same file, fresh cursor, same key.)
\<close>
theorem two_readers_one_key_second_Close_panics:
  "GetManifestFileReader (exEnv None) (exFresh ''ORC'') ''inv/data1.orc'' exWorld =
     (Inr (OrcMFR (exReader [[''1'', ''2'', ''3''], [''4'', ''5'']])), exMgr,
      exWorld\<lparr>localFiles := {''/tmp/data1.orc123''},
        downloadCalls := [(''inv-bucket'', ''inv/data1.orc'', ''/tmp/data1.orc123'')],
        openCalls := [''/tmp/data1.orc123'']\<rparr>) \<and>
   GetManifestFileReader (exEnv None) exMgr ''inv/data1.orc''
       (exWorld\<lparr>localFiles := {''/tmp/data1.orc123''},
          downloadCalls := [(''inv-bucket'', ''inv/data1.orc'', ''/tmp/data1.orc123'')],
          openCalls := [''/tmp/data1.orc123'']\<rparr>) =
     (Inr (OrcMFR (exReader [[''1'', ''2'', ''3''], [''4'', ''5'']])), exMgr,
      exWorld\<lparr>localFiles := {''/tmp/data1.orc123''},
        downloadCalls := [(''inv-bucket'', ''inv/data1.orc'', ''/tmp/data1.orc123'')],
        openCalls := [''/tmp/data1.orc123'', ''/tmp/data1.orc123'']\<rparr>) \<and>
   OrcManifestFileReader_Close None None (exReader [[''1'', ''2'', ''3''], [''4'', ''5'']]) exMgr
       (exWorld\<lparr>localFiles := {''/tmp/data1.orc123''},
          downloadCalls := [(''inv-bucket'', ''inv/data1.orc'', ''/tmp/data1.orc123'')],
          openCalls := [''/tmp/data1.orc123'', ''/tmp/data1.orc123'']\<rparr>) =
     Inr (None, exMgr\<lparr>orcFilesByKey := Map.empty\<rparr>,
          exWorld\<lparr>localFiles := {},
            downloadCalls := [(''inv-bucket'', ''inv/data1.orc'', ''/tmp/data1.orc123'')],
            openCalls := [''/tmp/data1.orc123'', ''/tmp/data1.orc123''],
            removeCalls := [''/tmp/data1.orc123'']\<rparr>) \<and>
   OrcManifestFileReader_Close None None (exReader [[''1'', ''2'', ''3''], [''4'', ''5'']])
       (exMgr\<lparr>orcFilesByKey := Map.empty\<rparr>)
       (exWorld\<lparr>localFiles := {},
          downloadCalls := [(''inv-bucket'', ''inv/data1.orc'', ''/tmp/data1.orc123'')],
          openCalls := [''/tmp/data1.orc123'', ''/tmp/data1.orc123''],
          removeCalls := [''/tmp/data1.orc123'']\<rparr>) =
     Inl NilPointerDereference"
  by (simp add: GetManifestFileReader_def getOrcReader_def openOrcReader_def download_def
        OrcManifestFileReader_Close_def clean_def osRemove_def Let_def
        exFresh_def NewInventoryReader_def exManifest_def exMgr_def exEntry_def exWorld_def
        exEnv_def exReader_def)

text \<open>
  C10. After a \<^verbatim>\<open>Close\<close> that returned, a second \<^verbatim>\<open>Close\<close> of the same reader panics on the
  nil cache entry in \<^verbatim>\<open>clean\<close>; it returns no error value.
\<close>
theorem OrcManifestFileReader_Close_second_panics:
  assumes "OrcManifestFileReader_Close cErr rErr r mgr w = Inr (e, mgr', w')"
  shows "OrcManifestFileReader_Close cErr' rErr' r mgr' w' = Inl NilPointerDereference"
  using assms
  by (auto simp: OrcManifestFileReader_Close_def clean_def split: option.splits)


theorem OrcManifestFileReader_Close_second_panics_witness:
  "OrcManifestFileReader_Close None None (exReader [[''1'']]) exMgr exWorld =
     Inr (None, exMgr\<lparr>orcFilesByKey := Map.empty\<rparr>,
          exWorld\<lparr>removeCalls := [''/tmp/data1.orc123'']\<rparr>) \<and>
   OrcManifestFileReader_Close None None (exReader [[''1'']])
       (exMgr\<lparr>orcFilesByKey := Map.empty\<rparr>)
       (exWorld\<lparr>removeCalls := [''/tmp/data1.orc123'']\<rparr>) =
     Inl NilPointerDereference"
proof -
  have a: "OrcManifestFileReader_Close None None (exReader [[''1'']]) exMgr exWorld =
     Inr (None, exMgr\<lparr>orcFilesByKey := Map.empty\<rparr>,
          exWorld\<lparr>removeCalls := [''/tmp/data1.orc123'']\<rparr>)"
    by (simp add: OrcManifestFileReader_Close_def clean_def osRemove_def exMgr_def exReader_def
          exEntry_def exWorld_def)
  from OrcManifestFileReader_Close_second_panics [OF a] a show ?thesis
    by simp
qed

text \<open>
  C8. For the format \<^verbatim>\<open>"ORC"\<close>, in a state of the cache that satisfies \<open>cacheInv\<close> (the
  fresh cache does, and every call keeps it: \<open>cacheInv_NewInventoryReader\<close>,
  \<open>cacheInv_GetManifestFileReader\<close>, \<open>cacheInv_clean\<close>), when the key has no ready entry and
  the download fails with \<open>err\<close> (at \<^verbatim>\<open>TempFile\<close> or in the downloader, a cancelled context
  included), \<^verbatim>\<open>GetManifestFileReader\<close> returns exactly \<open>err\<close>; the entry of the key is then
  not ready and records no local path, and the entries of all other keys are untouched.
\<close>
theorem GetManifestFileReader_download_failure:
  assumes fmt: "Format (manifest mgr) = ''ORC''"
    and inv: "cacheInv mgr"
    and nr: "\<forall>ent. orcFilesByKey mgr k = Some ent \<longrightarrow> \<not> ready ent"
    and dl: "fst (download env mgr k w) = Inl err"
  shows "fst (GetManifestFileReader env mgr k w) = Inl err \<and>
         (\<exists>ent. orcFilesByKey (fst (snd (GetManifestFileReader env mgr k w))) k = Some ent \<and>
                \<not> ready ent \<and> localFilename ent = []) \<and>
         (\<forall>k'. k' \<noteq> k \<longrightarrow>
                orcFilesByKey (fst (snd (GetManifestFileReader env mgr k w))) k' =
                orcFilesByKey mgr k')"
proof -
  let ?ent0 = "case orcFilesByKey mgr k of Some ent \<Rightarrow> ent
               | None \<Rightarrow> \<lparr>key = k, idx = 0, localFilename = [], ready = False\<rparr>"
  let ?ent1 = "setIdx (Files (manifest mgr)) 0 k ?ent0"
  let ?mgr1 = "mgr\<lparr>orcFilesByKey := (orcFilesByKey mgr)(k \<mapsto> ?ent1)\<rparr>"
  have r0: "\<not> ready ?ent0"
    using nr by (simp split: option.splits)
  then have l0: "localFilename ?ent0 = []"
    using cacheInv_entry0 [OF inv] by blast
  have d: "fst (download env ?mgr1 k w) = Inl err"
    using dl by (simp add: fst_download)
  then obtain w1 where d1: "download env ?mgr1 k w = (Inl err, w1)"
    by (cases "download env ?mgr1 k w") simp
  have g: "GetManifestFileReader env mgr k w = (Inl err, ?mgr1, w1)"
    using fmt r0 d1 by (simp add: GetManifestFileReader_def getOrcReader_def Let_def setIdx_fields)
  show ?thesis
    using r0 l0 by (simp add: g setIdx_fields)
qed

theorem GetManifestFileReader_download_failure_witness:
  "fst (GetManifestFileReader (exEnv (Some (External ''context canceled'')))
          (exFresh ''ORC'') ''inv/data1.orc'' exWorld) =
     Inl (External ''context canceled'') \<and>
   (\<exists>ent. orcFilesByKey
            (fst (snd (GetManifestFileReader (exEnv (Some (External ''context canceled'')))
                         (exFresh ''ORC'') ''inv/data1.orc'' exWorld)))
            ''inv/data1.orc'' = Some ent \<and>
          \<not> ready ent \<and> localFilename ent = [])"
proof -
  let ?mgr = "exFresh ''ORC''"
  let ?env = "exEnv (Some (External ''context canceled''))"
  have a: "Format (manifest ?mgr) = ''ORC''"
    by (simp add: exFresh_def exManifest_def)
  have b: "cacheInv ?mgr"
    by (simp add: exFresh_def cacheInv_manifest cacheInv_NewInventoryReader)
  have c: "\<forall>ent. orcFilesByKey ?mgr ''inv/data1.orc'' = Some ent \<longrightarrow> \<not> ready ent"
    by (simp add: exFresh_def NewInventoryReader_def)
  have d: "fst (download ?env ?mgr ''inv/data1.orc'' exWorld) = Inl (External ''context canceled'')"
    by (simp add: download_def exEnv_def Let_def)
  from GetManifestFileReader_download_failure [OF a b c d] show ?thesis
    by blast
qed




end
